theory Spec2Isabelle
  imports Main "HOL-Library.Word"
begin

section \<open>Outcomes and deciders (fsm/deciders.go)\<close>

text \<open>
  A Go panic is a value of the model: a function that can panic returns
  \<open>panic + 'a\<close>, with \<open>Inl\<close> for the panic. \<open>NilDereference\<close> is the runtime
  error of reading through a nil pointer or calling a method on a nil interface,
  \<open>IndexOutOfRange\<close> the one of \<open>t.In(i)\<close> past the last parameter; the other
  constructors are the five messages of \<open>typeCheck\<close>.
\<close>

datatype panic =
    NilDereference
  | IndexOutOfRange
  | KindNotFunc string
  | InputArity nat nat
  | ArgumentType nat string string
  | ReturnArity nat nat
  | ReturnType nat string string

text \<open>
  Modelled from the spec: the \<open>Outcome\<close> interface, its implementations and the value
  \<open>Pass\<close> are declared outside fsm/deciders.go. The spec: an Outcome is "a tagged
  variant", exactly one of Pass (carries nothing), Continue (decisions, data), Transition
  (decisions, data, target state) and Complete (decisions, final data).
  \<open>NilOutcome\<close> is not a fifth shape: it is the nil value of the Go interface, which
  \<open>marshalledFunc.decider\<close> returns by name (line 140), beside the \<open>Pass\<close> that the
  other deciders return.
  'd is the opaque state data (\<open>interface{}\<close>), 'c the type of decisions.
\<close>

datatype ('d, 'c) Outcome =
    NilOutcome
  | Pass
  | ContinueOutcome 'd "'c list"
  | TransitionOutcome 'd string "'c list"
  | CompleteOutcome 'd "'c list"

text \<open>
  Modelled from the spec: the method \<open>State()\<close> of the outcomes is declared outside
  these files. A Transition reports its target state; a Complete outcome, which carries
  no target state, reports the empty string.
\<close>

fun Outcome_State :: "('d, 'c) Outcome \<Rightarrow> string" where
  "Outcome_State (TransitionOutcome dat st decs) = st"
| "Outcome_State _ = []"

subsection \<open>History events, decisions and the execution context\<close>

text \<open>
  \<open>swf.HistoryEvent\<close> of the AWS SDK, with the fields that deciders.go reads. Every
  field is a pointer in Go (\<open>*h.EventType\<close>, \<open>*h.EventID\<close>, ...), so it is an option
  here and reading a nil one panics.
\<close>

record TimerFiredEventAttributes =
  TimerID :: "string option"

record WorkflowExecutionSignaledEventAttributes =
  SignalName :: "string option"

record HistoryEvent =
  EventType :: "string option"
  EventID :: "int option"
  TimerFiredEventAttributes :: "TimerFiredEventAttributes option"
  WorkflowExecutionSignaledEventAttributes :: "WorkflowExecutionSignaledEventAttributes option"

definition EventTypeTimerFired :: string where
  "EventTypeTimerFired = ''TimerFired''"

definition EventTypeWorkflowExecutionSignaled :: string where
  "EventTypeWorkflowExecutionSignaled = ''WorkflowExecutionSignaled''"

definition EventTypeExternalWorkflowExecutionSignaled :: string where
  "EventTypeExternalWorkflowExecutionSignaled = ''ExternalWorkflowExecutionSignaled''"

definition EventTypeSignalExternalWorkflowExecutionFailed :: string where
  "EventTypeSignalExternalWorkflowExecutionFailed = ''SignalExternalWorkflowExecutionFailed''"

text \<open>
  Modelled from the spec: the names of the reserved continue timer and of the reserved
  continue signal are declared outside these files. The doc comment of
  \<open>ManagedContinuations\<close> calls both "FSM.ContinueWorkflow".
\<close>

definition ContinueTimer :: string where
  "ContinueTimer = ''FSM.ContinueWorkflow''"

definition ContinueSignal :: string where
  "ContinueSignal = ''FSM.ContinueWorkflow''"

text \<open>
  Modelled from the spec: \<open>ctx.ContinueWorkflowDecision\<close> is declared outside these
  files; it builds "a continue-as-new decision pre-filled with the current state name",
  here \<open>ContinueAsNewWorkflowExecution state\<close>. The other two constructors of
  \<open>swf.Decision\<close> (a decision type with the attributes of that type) are the struct
  literals of \<open>ManagedContinuations\<close>: \<open>StartTimer timeout timerID\<close> and
  \<open>SignalExternalWorkflowExecution signalName workflowID runID\<close>, the last two copied
  from the context, where they are pointers.
\<close>

datatype Decision =
    StartTimer string string
  | SignalExternalWorkflowExecution string "string option" "string option"
  | ContinueAsNewWorkflowExecution string

text \<open>
  Modelled from the spec: \<open>FSMContext\<close> and its method \<open>ActivitiesInfo()\<close> are declared
  outside these files. The record has what deciders.go reads of the context:
  \<open>ctx.WorkflowType.Name\<close> (a pointer, read by \<open>logf\<close>), \<open>ctx.WorkflowID\<close> and
  \<open>ctx.RunID\<close> (pointers, copied into the signal decision), \<open>ctx.State\<close>, and the
  "registry mapping outstanding unit-of-work identifiers to descriptive info" that
  \<open>ctx.ActivitiesInfo()\<close> returns, here an association list whose length is the \<open>len\<close>
  Go takes.
\<close>

record FSMContext =
  WorkflowType_Name :: "string option"
  WorkflowID :: "string option"
  RunID :: "string option"
  State :: string
  ActivitiesInfo :: "(string \<times> string) list"

type_synonym ('d, 'c) Decider =
  "FSMContext \<Rightarrow> HistoryEvent \<Rightarrow> 'd \<Rightarrow> panic + ('d, 'c) Outcome"

text \<open>
  Modelled from the spec: the factory methods of the context ("factory methods for
  producing each Outcome kind") are declared outside these files.
  \<open>ctx.EmptyDecisions()\<close> is the empty decision sequence, \<open>ctx.ContinueDecision\<close> builds
  a Continue outcome and \<open>ctx.Goto\<close> a Transition, each carrying the data and decisions
  it is given. \<open>ctx.Stay\<close> builds a Continue outcome too: the spec has no Stay shape, it
  has Stay as "Continue with no decisions" for the catch-all rule (a Continue with the
  decisions given, for the rules that "emit a decision and Stay"), and Continue as the
  shape that "does not change logical state".
\<close>

definition EmptyDecisions :: "FSMContext \<Rightarrow> 'c list" where
  "EmptyDecisions ctx = []"

definition ContinueDecision :: "FSMContext \<Rightarrow> 'd \<Rightarrow> 'c list \<Rightarrow> ('d, 'c) Outcome" where
  "ContinueDecision ctx data decisions = ContinueOutcome data decisions"

definition Goto :: "FSMContext \<Rightarrow> string \<Rightarrow> 'd \<Rightarrow> 'c list \<Rightarrow> ('d, 'c) Outcome" where
  "Goto ctx state data decisions = TransitionOutcome data state decisions"

definition Stay :: "FSMContext \<Rightarrow> 'd \<Rightarrow> 'c list \<Rightarrow> ('d, 'c) Outcome" where
  "Stay ctx data decisions = ContinueOutcome data decisions"

definition ContinueWorkflowDecision :: "FSMContext \<Rightarrow> string \<Rightarrow> Decision" where
  "ContinueWorkflowDecision ctx continuedState = ContinueAsNewWorkflowExecution continuedState"

subsection \<open>ComposedDecider\<close>

text \<open>
  \<open>ComposedDecider.Decide\<close> (lines 32-59). The loop over \<open>c.deciders\<close> is the recursion
  of \<open>Decide_loop\<close> on the list, with the two variables the loop updates, \<open>data\<close> and
  \<open>decisions\<close>, as arguments. One branch per case of the source:
  \<^item> a sub-decider that panics ends the call with its panic;
  \<^item> \<open>outcome == Pass\<close>: next sub-decider, nothing accumulated;
  \<^item> a nil outcome is not \<open>Pass\<close>, so \<open>outcome.Decisions()\<close> is called on it and panics;
  \<^item> \<open>ContinueOutcome\<close>: its decisions are appended, its data replaces \<open>data\<close>, next
    sub-decider;
  \<^item> \<open>default\<close> (a Transition or a Complete outcome): its decisions are appended, and a
    \<open>TransitionOutcome\<close> is returned with its data, its \<open>State()\<close> and the accumulated
    decisions;
  \<^item> end of the list: a \<open>ContinueOutcome\<close> with the current data and decisions.
\<close>

fun Decide_loop ::
  "('d, 'c) Decider list \<Rightarrow> FSMContext \<Rightarrow> HistoryEvent \<Rightarrow> 'd \<Rightarrow> 'c list \<Rightarrow> panic + ('d, 'c) Outcome"
where
  "Decide_loop [] ctx h data decisions = Inr (ContinueOutcome data decisions)"
| "Decide_loop (d # ds) ctx h data decisions =
     (case d ctx h data of
        Inl p \<Rightarrow> Inl p
      | Inr outcome \<Rightarrow>
          (case outcome of
             Pass \<Rightarrow> Decide_loop ds ctx h data decisions
           | NilOutcome \<Rightarrow> Inl NilDereference
           | ContinueOutcome dat decs \<Rightarrow> Decide_loop ds ctx h dat (decisions @ decs)
           | TransitionOutcome dat st decs \<Rightarrow>
               Inr (TransitionOutcome dat (Outcome_State outcome) (decisions @ decs))
           | CompleteOutcome dat decs \<Rightarrow>
               Inr (TransitionOutcome dat (Outcome_State outcome) (decisions @ decs))))"

definition Decide :: "('d, 'c) Decider list \<Rightarrow> ('d, 'c) Decider" where
  "Decide deciders ctx h data = Decide_loop deciders ctx h data (EmptyDecisions ctx)"

definition NewComposedDecider :: "('d, 'c) Decider list \<Rightarrow> ('d, 'c) Decider" where
  "NewComposedDecider deciders = Decide deciders"


text \<open>
  \<open>logf\<close> (lines 61-64) reads \<open>*ctx.WorkflowType.Name\<close> to build its line and panics
  when that pointer is nil. The line it prints is not part of the model.
\<close>

definition logf :: "FSMContext \<Rightarrow> panic + unit" where
  "logf ctx = (case WorkflowType_Name ctx of None \<Rightarrow> Inl NilDereference | Some name \<Rightarrow> Inr ())"

subsection \<open>Event-matching combinators for signals\<close>

text \<open>
  \<open>OnSignalReceived\<close> (lines 233-244) compares the signal name of the event with its
  argument; \<open>OnSignalSent\<close> (lines 246-256) and \<open>OnSignalFailed\<close> (lines 258-268)
  switch on the event type only and leave the name unchecked (a TODO in the source).
\<close>

definition OnSignalReceived :: "string \<Rightarrow> ('d, 'c) Decider list \<Rightarrow> ('d, 'c) Decider" where
  "OnSignalReceived signalName deciders ctx h data =
     (case EventType h of
        None \<Rightarrow> Inl NilDereference
      | Some et \<Rightarrow>
          if et = EventTypeWorkflowExecutionSignaled then
            (case WorkflowExecutionSignaledEventAttributes h of
               None \<Rightarrow> Inl NilDereference
             | Some a \<Rightarrow>
                 (case SignalName a of
                    None \<Rightarrow> Inl NilDereference
                  | Some n \<Rightarrow>
                      if n = signalName then
                        (case logf ctx of
                           Inl p \<Rightarrow> Inl p
                         | Inr u \<Rightarrow> NewComposedDecider deciders ctx h data)
                      else Inr Pass))
          else Inr Pass)"

definition OnSignalSent :: "string \<Rightarrow> ('d, 'c) Decider list \<Rightarrow> ('d, 'c) Decider" where
  "OnSignalSent signalName deciders ctx h data =
     (case EventType h of
        None \<Rightarrow> Inl NilDereference
      | Some et \<Rightarrow>
          if et = EventTypeExternalWorkflowExecutionSignaled then
            (case logf ctx of
               Inl p \<Rightarrow> Inl p
             | Inr u \<Rightarrow> NewComposedDecider deciders ctx h data)
          else Inr Pass)"

definition OnSignalFailed :: "string \<Rightarrow> ('d, 'c) Decider list \<Rightarrow> ('d, 'c) Decider" where
  "OnSignalFailed signalName deciders ctx h data =
     (case EventType h of
        None \<Rightarrow> Inl NilDereference
      | Some et \<Rightarrow>
          if et = EventTypeSignalExternalWorkflowExecutionFailed then
            (case logf ctx of
               Inl p \<Rightarrow> Inl p
             | Inr u \<Rightarrow> NewComposedDecider deciders ctx h data)
          else Inr Pass)"

subsection \<open>ManagedContinuations\<close>

text \<open>
  \<open>strconv.Itoa\<close>: the decimal digits of an integer, with a minus sign when negative.
\<close>

fun nat_digits :: "nat \<Rightarrow> string" where
  "nat_digits n =
     (if n < 10 then [''0123456789'' ! n]
      else nat_digits (n div 10) @ [''0123456789'' ! (n mod 10)])"

declare nat_digits.simps [simp del]

definition Itoa :: "int \<Rightarrow> string" where
  "Itoa i = (if i < 0 then CHR ''-'' # nat_digits (nat (- i)) else nat_digits (nat i))"

text \<open>
  The three rules of \<open>ManagedContinuations\<close> (lines 356-421), closures over
  \<open>historySize\<close> and \<open>timerRetrySeconds\<close>. \<open>&&\<close> evaluates its right operand only when
  the left one holds, so the attributes are read only for an event of the matching type.
  \<open>*h.EventID > int64(historySize)\<close> compares two signed integers without arithmetic;
  both are \<open>int\<close> here.
\<close>

definition handleContinuationTimer :: "int \<Rightarrow> ('d, Decision) Decider" where
  "handleContinuationTimer timerRetrySeconds ctx h data =
     (case EventType h of
        None \<Rightarrow> Inl NilDereference
      | Some et \<Rightarrow>
          if et = EventTypeTimerFired then
            (case TimerFiredEventAttributes h of
               None \<Rightarrow> Inl NilDereference
             | Some a \<Rightarrow>
                 (case TimerID a of
                    None \<Rightarrow> Inl NilDereference
                  | Some tid \<Rightarrow>
                      if tid = ContinueTimer then
                        (if length (ActivitiesInfo ctx) = 0 then
                           Inr (Stay ctx data
                                 (EmptyDecisions ctx @ [ContinueWorkflowDecision ctx (State ctx)]))
                         else
                           Inr (Stay ctx data
                                 (EmptyDecisions ctx @
                                  [StartTimer (Itoa timerRetrySeconds) ContinueTimer])))
                      else Inr Pass))
          else Inr Pass)"

definition handleContinuationSignal :: "int \<Rightarrow> ('d, Decision) Decider" where
  "handleContinuationSignal timerRetrySeconds ctx h data =
     (case EventType h of
        None \<Rightarrow> Inl NilDereference
      | Some et \<Rightarrow>
          if et = EventTypeWorkflowExecutionSignaled then
            (case WorkflowExecutionSignaledEventAttributes h of
               None \<Rightarrow> Inl NilDereference
             | Some a \<Rightarrow>
                 (case SignalName a of
                    None \<Rightarrow> Inl NilDereference
                  | Some n \<Rightarrow>
                      if n = ContinueSignal then
                        (if length (ActivitiesInfo ctx) = 0 then
                           Inr (Stay ctx data
                                 (EmptyDecisions ctx @ [ContinueWorkflowDecision ctx (State ctx)]))
                         else
                           Inr (Stay ctx data
                                 (EmptyDecisions ctx @
                                  [StartTimer (Itoa timerRetrySeconds) ContinueTimer])))
                      else Inr Pass))
          else Inr Pass)"

definition signalContinuationWhenHistoryLarge :: "int \<Rightarrow> ('d, Decision) Decider" where
  "signalContinuationWhenHistoryLarge historySize ctx h data =
     (case EventID h of
        None \<Rightarrow> Inl NilDereference
      | Some eid \<Rightarrow>
          if eid > historySize then
            Inr (Stay ctx data
                  (EmptyDecisions ctx @
                   [SignalExternalWorkflowExecution ContinueSignal (WorkflowID ctx) (RunID ctx)]))
          else Inr Pass)"

definition ManagedContinuations :: "int \<Rightarrow> int \<Rightarrow> ('d, Decision) Decider" where
  "ManagedContinuations historySize timerRetrySeconds =
     NewComposedDecider
       [handleContinuationTimer timerRetrySeconds,
        handleContinuationSignal timerRetrySeconds,
        signalContinuationWhenHistoryLarge historySize]"

subsection \<open>Typed adapters\<close>

text \<open>
  What \<open>typeCheck\<close> reads of a value through \<open>reflect\<close>: its \<open>reflect.Type\<close>, which is
  either a func type, seen as the strings \<open>t.In(i).String()\<close> and \<open>t.Out(i).String()\<close>
  of its parameters and results, or a type of another kind, seen as the name of that
  kind. A value passed as \<open>interface{}\<close> is an option: \<open>None\<close> is the nil interface,
  whose \<open>reflect.TypeOf\<close> is nil. \<open>fn\<close> is what calling the value does.
\<close>

datatype rtype = FuncType "string list" "string list" | OtherKind string

record 'f func_value =
  rtype :: rtype
  fn :: 'f

text \<open>
  The two loops of \<open>typeCheck\<close> (lines 175-182 and 191-198): the expected strings are
  compared with the actual ones from index \<open>i\<close> on; the first difference is returned as
  (index, actual, expected).
\<close>

fun check_types :: "nat \<Rightarrow> string list \<Rightarrow> string list \<Rightarrow> (nat \<times> string \<times> string) option option" where
  "check_types i [] ts = Some None"
| "check_types i (rt # rts) [] = None"
| "check_types i (rt # rts) (t # ts) =
     (if rt \<noteq> t then Some (Some (i, t, rt)) else check_types (Suc i) rts ts)"

text \<open>
  \<open>typeCheck\<close> (lines 163-199) returns nothing; \<open>None\<close> is its normal return and
  \<open>Some p\<close> the panic \<open>p\<close>.
\<close>

definition typeCheck :: "rtype option \<Rightarrow> string list \<Rightarrow> string list \<Rightarrow> panic option" where
  "typeCheck t ins outs =
     (case t of
        None \<Rightarrow> Some NilDereference
      | Some (OtherKind k) \<Rightarrow> Some (KindNotFunc k)
      | Some (FuncType tin tout) \<Rightarrow>
          if length ins \<noteq> length tin then Some (InputArity (length tin) (length ins))
          else
            (case check_types 0 ins tin of
               None \<Rightarrow> Some IndexOutOfRange
             | Some (Some (i, actual, expected)) \<Rightarrow> Some (ArgumentType i actual expected)
             | Some None \<Rightarrow>
                 if length outs \<noteq> length tout then Some (ReturnArity (length tout) (length outs))
                 else
                   (case check_types 0 outs tout of
                      None \<Rightarrow> Some IndexOutOfRange
                    | Some (Some (i, actual, expected)) \<Rightarrow> Some (ReturnType i actual expected)
                    | Some None \<Rightarrow> None)))"

text \<open>
  \<open>TypedFuncs\<close> holds a value of the payload type; only the string of its type is read
  (\<open>typeArg\<close>, lines 99-101), which panics on a nil interface.
\<close>

record TypedFuncs =
  typed :: "string option"

definition Typed :: "string option \<Rightarrow> TypedFuncs" where
  "Typed t = \<lparr>typed = t\<rparr>"

definition typeArg :: "TypedFuncs \<Rightarrow> panic + string" where
  "typeArg t = (case typed t of None \<Rightarrow> Inl NilDereference | Some s \<Rightarrow> Inr s)"

text \<open>
  The adapters of \<open>marshalledFunc\<close> (lines 137-161) call the wrapped value. The decider
  adapter returns nil when the call returns a nil \<open>Outcome\<close>. The payload has the type
  'd that the callback takes, so the panic of \<open>Call\<close> on a payload of another dynamic
  type has no counterpart here. A \<open>StateFunc\<close> changes the payload through its pointer;
  the callback of the model returns the changed payload.
\<close>

definition marshalledFunc_decider :: "('d, 'c) Decider func_value \<Rightarrow> ('d, 'c) Decider" where
  "marshalledFunc_decider m f h data =
     (case fn m f h data of
        Inl p \<Rightarrow> Inl p
      | Inr ret \<Rightarrow> if ret = NilOutcome then Inr NilOutcome else Inr ret)"

type_synonym ('d, 'c) DecisionFunc = "FSMContext \<Rightarrow> HistoryEvent \<Rightarrow> 'd \<Rightarrow> panic + 'c"
type_synonym ('d, 'c) MultiDecisionFunc = "FSMContext \<Rightarrow> HistoryEvent \<Rightarrow> 'd \<Rightarrow> panic + 'c list"
type_synonym 'd StateFunc = "FSMContext \<Rightarrow> HistoryEvent \<Rightarrow> 'd \<Rightarrow> panic + 'd"
type_synonym 'd PredicateFunc = "'d \<Rightarrow> panic + bool"

definition marshalledFunc_decisionFunc :: "('d, 'c) DecisionFunc func_value \<Rightarrow> ('d, 'c) DecisionFunc" where
  "marshalledFunc_decisionFunc m f h data = fn m f h data"

definition marshalledFunc_multiDecisionFunc ::
  "('d, 'c) MultiDecisionFunc func_value \<Rightarrow> ('d, 'c) MultiDecisionFunc" where
  "marshalledFunc_multiDecisionFunc m f h data = fn m f h data"

definition marshalledFunc_stateFunc :: "'d StateFunc func_value \<Rightarrow> 'd StateFunc" where
  "marshalledFunc_stateFunc m f h data = fn m f h data"

definition marshalledFunc_predicateFunc :: "'d PredicateFunc func_value \<Rightarrow> 'd PredicateFunc" where
  "marshalledFunc_predicateFunc m data = fn m data"

text \<open>
  The five constructors (lines 104-131) share one shape: \<open>t.typeArg()\<close> is evaluated
  for the argument list, \<open>typeCheck\<close> runs, and only then is the adapter built.
  \<open>construct\<close> is that shape; a panic is the result \<open>Inl\<close>, an adapter \<open>Inr\<close>.
\<close>

definition construct ::
  "TypedFuncs \<Rightarrow> 'f func_value option \<Rightarrow> (string \<Rightarrow> string list) \<Rightarrow> string list \<Rightarrow>
   ('f func_value \<Rightarrow> 'g) \<Rightarrow> panic + 'g" where
  "construct t callback ins outs adapter =
     (case typeArg t of
        Inl p \<Rightarrow> Inl p
      | Inr ta \<Rightarrow>
          (case typeCheck (map_option rtype callback) (ins ta) outs of
             Some p \<Rightarrow> Inl p
           | None \<Rightarrow>
               (case callback of
                  None \<Rightarrow> Inl NilDereference
                | Some v \<Rightarrow> Inr (adapter v))))"

definition decider_ins :: "string \<Rightarrow> string list" where
  "decider_ins ta = [''*fsm.FSMContext'', ''swf.HistoryEvent'', ta]"

definition TypedFuncs_Decider ::
  "TypedFuncs \<Rightarrow> ('d, 'c) Decider func_value option \<Rightarrow> panic + ('d, 'c) Decider" where
  "TypedFuncs_Decider t decider =
     construct t decider decider_ins [''fsm.Outcome''] marshalledFunc_decider"

definition TypedFuncs_DecisionFunc ::
  "TypedFuncs \<Rightarrow> ('d, 'c) DecisionFunc func_value option \<Rightarrow> panic + ('d, 'c) DecisionFunc" where
  "TypedFuncs_DecisionFunc t decisionFunc =
     construct t decisionFunc decider_ins [''swf.Decision''] marshalledFunc_decisionFunc"

definition TypedFuncs_MultiDecisionFunc ::
  "TypedFuncs \<Rightarrow> ('d, 'c) MultiDecisionFunc func_value option \<Rightarrow> panic + ('d, 'c) MultiDecisionFunc" where
  "TypedFuncs_MultiDecisionFunc t decisionFunc =
     construct t decisionFunc decider_ins [''[]swf.Decision''] marshalledFunc_multiDecisionFunc"

definition TypedFuncs_StateFunc ::
  "TypedFuncs \<Rightarrow> 'd StateFunc func_value option \<Rightarrow> panic + 'd StateFunc" where
  "TypedFuncs_StateFunc t stateFunc =
     construct t stateFunc decider_ins [] marshalledFunc_stateFunc"

definition TypedFuncs_PredicateFunc ::
  "TypedFuncs \<Rightarrow> 'd PredicateFunc func_value option \<Rightarrow> panic + 'd PredicateFunc" where
  "TypedFuncs_PredicateFunc t stateFunc =
     construct t stateFunc (\<lambda>ta. [ta]) [''bool''] marshalledFunc_predicateFunc"


section \<open>Decision-task dispatch\<close>

text \<open>
  Modelled from the spec: \<open>CallingGoroutineDispatcher\<close> and its \<open>DispatchTask\<close> are
  declared outside these files (only their test is here). The spec: "Inline:
  \<open>handler(task)\<close> is invoked synchronously on the caller's thread of execution before
  \<open>DispatchTask\<close> returns. No concurrency, strict ordering, caller fully blocks for the
  duration of handling."
  A handler works on the state 's of the program and may never return (it blocks on a
  channel, say): \<open>None\<close> is "does not return". The number of completed handler
  invocations is part of the state the dispatcher works on.
\<close>

record 's world =
  invocations :: nat
  program :: 's

type_synonym ('t, 's) handler = "'t \<Rightarrow> 's \<Rightarrow> 's option"

definition call_handler :: "('t, 's) handler \<Rightarrow> 't \<Rightarrow> 's world \<Rightarrow> 's world option" where
  "call_handler handler task w =
     (case handler task (program w) of
        None \<Rightarrow> None
      | Some s \<Rightarrow> Some \<lparr>invocations = Suc (invocations w), program = s\<rparr>)"

definition CallingGoroutineDispatcher_DispatchTask ::
  "'t \<Rightarrow> ('t, 's) handler \<Rightarrow> 's world \<Rightarrow> 's world option" where
  "CallingGoroutineDispatcher_DispatchTask task handler w = call_handler handler task w"

text \<open>
  \<open>testDispatcher\<close> (lines 444-465, in the dispatcher test that follows deciders.go)
  up to its \<open>select\<close>: the counter \<open>tasksHandled\<close> is an \<open>int32\<close>, \<open>done\<close> a channel
  with room for one message, here \<open>done_chan\<close>, the number of messages it holds; a
  send on the full channel never returns while nobody receives. The loop dispatches
  \<open>totalTasks\<close> tasks; the test passes when \<open>done\<close> holds a message.
\<close>

record test_state =
  tasksHandled :: "32 word"
  done_chan :: nat

definition totalTasks :: "32 word" where
  "totalTasks = 1000"

definition test_handler :: "(unit, test_state) handler" where
  "test_handler d s =
     (let handled = tasksHandled s + 1;
          s' = s\<lparr>tasksHandled := handled\<rparr>
      in if handled = totalTasks then
           (if done_chan s' < 1 then Some (s'\<lparr>done_chan := Suc (done_chan s')\<rparr>) else None)
         else Some s')"

fun dispatch_loop ::
  "(unit \<Rightarrow> (unit, test_state) handler \<Rightarrow> test_state world \<Rightarrow> test_state world option) \<Rightarrow>
   nat \<Rightarrow> test_state world \<Rightarrow> test_state world option" where
  "dispatch_loop DispatchTask 0 w = Some w"
| "dispatch_loop DispatchTask (Suc n) w =
     (case DispatchTask () test_handler w of
        None \<Rightarrow> None
      | Some w' \<Rightarrow> dispatch_loop DispatchTask n w')"

definition testDispatcher ::
  "(unit \<Rightarrow> (unit, test_state) handler \<Rightarrow> test_state world \<Rightarrow> test_state world option) \<Rightarrow>
   test_state world option" where
  "testDispatcher DispatchTask =
     dispatch_loop DispatchTask (unat totalTasks)
       \<lparr>invocations = 0, program = \<lparr>tasksHandled = 0, done_chan = 0\<rparr>\<rparr>"

section \<open>Notions used to state the properties\<close>

text \<open>
  The rule that always passes.
\<close>

definition pass_rule :: "('d, 'c) Decider" where
  "pass_rule ctx h data = Inr Pass"

text \<open>
  The decisions an outcome contributes to a composition: the ones it carries; Pass
  contributes none.
\<close>

fun contributed :: "('d, 'c) Outcome \<Rightarrow> 'c list" where
  "contributed (ContinueOutcome dat decs) = decs"
| "contributed (TransitionOutcome dat st decs) = decs"
| "contributed (CompleteOutcome dat decs) = decs"
| "contributed Pass = []"
| "contributed NilOutcome = []"

fun carried_data :: "('d, 'c) Outcome \<Rightarrow> 'd \<Rightarrow> 'd" where
  "carried_data (ContinueOutcome dat decs) data = dat"
| "carried_data (TransitionOutcome dat st decs) data = dat"
| "carried_data (CompleteOutcome dat decs) data = dat"
| "carried_data Pass data = data"
| "carried_data NilOutcome data = data"

text \<open>
  An outcome ends a composition when it is a Transition or a Complete outcome.
\<close>

fun ends_composition :: "('d, 'c) Outcome \<Rightarrow> bool" where
  "ends_composition (TransitionOutcome dat st decs) = True"
| "ends_composition (CompleteOutcome dat decs) = True"
| "ends_composition _ = False"

fun is_Transition :: "('d, 'c) Outcome \<Rightarrow> bool" where
  "is_Transition (TransitionOutcome dat st decs) = True"
| "is_Transition _ = False"

fun is_Complete :: "('d, 'c) Outcome \<Rightarrow> bool" where
  "is_Complete (CompleteOutcome dat decs) = True"
| "is_Complete _ = False"

text \<open>
  \<open>passing rules ctx h data\<close> runs the rules in order, each on the data left by the
  ones before it, as long as each answers Pass or Continue. It is \<open>Some (outcomes, data')\<close>
  with their outcomes and the data they leave when all of them do. It is \<open>None\<close> when
  one of them, reached in this way, answers with a Transition or a Complete outcome, or
  returns no outcome at all (it panics, or returns nil).
\<close>

fun passing ::
  "('d, 'c) Decider list \<Rightarrow> FSMContext \<Rightarrow> HistoryEvent \<Rightarrow> 'd \<Rightarrow> (('d, 'c) Outcome list \<times> 'd) option"
where
  "passing [] ctx h data = Some ([], data)"
| "passing (d # ds) ctx h data =
     (case d ctx h data of
        Inr Pass \<Rightarrow>
          (case passing ds ctx h data of
             None \<Rightarrow> None
           | Some (os, data') \<Rightarrow> Some (Pass # os, data'))
      | Inr (ContinueOutcome dat decs) \<Rightarrow>
          (case passing ds ctx h dat of
             None \<Rightarrow> None
           | Some (os, data') \<Rightarrow> Some (ContinueOutcome dat decs # os, data'))
      | _ \<Rightarrow> None)"

text \<open>
  The decisions of an outcome that \<open>Decide\<close> returns.
\<close>

definition result_decisions :: "panic + ('d, 'c) Outcome \<Rightarrow> 'c list option" where
  "result_decisions r = (case r of Inl p \<Rightarrow> None | Inr outcome \<Rightarrow> Some (contributed outcome))"

text \<open>
  A rule list with the rules at the positions in \<open>S\<close> replaced by the rule that always
  passes; the list without the rules at those positions is \<open>nths rules (- S)\<close>.
\<close>

definition replace_by_pass :: "nat set \<Rightarrow> ('d, 'c) Decider list \<Rightarrow> ('d, 'c) Decider list" where
  "replace_by_pass S rules =
     map (\<lambda>i. if i \<in> S then pass_rule else rules ! i) [0..<length rules]"

text \<open>
  Whether a returned outcome is a Complete outcome.
\<close>

definition returns_Complete :: "panic + ('d, 'c) Outcome \<Rightarrow> bool" where
  "returns_Complete r = (case r of Inl p \<Rightarrow> False | Inr outcome \<Rightarrow> is_Complete outcome)"

text \<open>
  The attributes of an event, read through their pointers.
\<close>

definition timer_id :: "HistoryEvent \<Rightarrow> string option" where
  "timer_id h = (case TimerFiredEventAttributes h of None \<Rightarrow> None | Some a \<Rightarrow> TimerID a)"

definition signal_name :: "HistoryEvent \<Rightarrow> string option" where
  "signal_name h =
     (case WorkflowExecutionSignaledEventAttributes h of None \<Rightarrow> None | Some a \<Rightarrow> SignalName a)"

text \<open>
  A history event as the service delivers it: it has a type and an identifier, a
  timer-fired event names its timer and a signaled event names its signal.
\<close>

definition well_formed :: "HistoryEvent \<Rightarrow> bool" where
  "well_formed h \<longleftrightarrow>
     EventType h \<noteq> None \<and> EventID h \<noteq> None \<and>
     (EventType h = Some EventTypeTimerFired \<longrightarrow> timer_id h \<noteq> None) \<and>
     (EventType h = Some EventTypeWorkflowExecutionSignaled \<longrightarrow> signal_name h \<noteq> None)"

text \<open>
  The events of the first two rules of \<open>ManagedContinuations\<close>: the reserved timer
  fired, or the reserved signal was received.
\<close>

definition continuation_event :: "HistoryEvent \<Rightarrow> bool" where
  "continuation_event h \<longleftrightarrow>
     EventType h = Some EventTypeTimerFired \<and> timer_id h = Some ContinueTimer \<or>
     EventType h = Some EventTypeWorkflowExecutionSignaled \<and> signal_name h = Some ContinueSignal"

text \<open>
  The one decision of a continuation: continue-as-new with the current state name when
  no activity is outstanding, else a start of the reserved timer with the retry delay.
  The decision that signals the same execution with the reserved signal.
\<close>

definition continuation_decision :: "int \<Rightarrow> FSMContext \<Rightarrow> Decision" where
  "continuation_decision timerRetrySeconds ctx =
     (if ActivitiesInfo ctx = [] then ContinueAsNewWorkflowExecution (State ctx)
      else StartTimer (Itoa timerRetrySeconds) ContinueTimer)"

definition self_signal :: "FSMContext \<Rightarrow> Decision" where
  "self_signal ctx = SignalExternalWorkflowExecution ContinueSignal (WorkflowID ctx) (RunID ctx)"

definition emits :: "Decision \<Rightarrow> panic + ('d, Decision) Outcome \<Rightarrow> bool" where
  "emits dec r = (case r of Inl p \<Rightarrow> False | Inr outcome \<Rightarrow> dec \<in> set (contributed outcome))"

text \<open>
  A returned outcome stays in the current state when it is a Continue outcome, the
  shape that "does not change logical state": it names no target state, as a
  Transition does, and does not end the execution, as a Complete outcome does.
\<close>

fun stays :: "panic + ('d, 'c) Outcome \<Rightarrow> bool" where
  "stays (Inr (ContinueOutcome dat decs)) = True"
| "stays _ = False"

text \<open>
  A callback matches the shape a constructor expects when the payload type is known
  and the callback is a func whose parameter and result types are the expected ones.
\<close>

definition matches_shape ::
  "TypedFuncs \<Rightarrow> 'f func_value option \<Rightarrow> (string \<Rightarrow> string list) \<Rightarrow> string list \<Rightarrow> bool" where
  "matches_shape t callback ins outs =
     (case typed t of
        None \<Rightarrow> False
      | Some ta \<Rightarrow>
          (case callback of
             None \<Rightarrow> False
           | Some v \<Rightarrow> rtype v = FuncType (ins ta) outs))"

subsection \<open>Concrete inputs\<close>

definition example_ctx :: FSMContext where
  "example_ctx =
     \<lparr>WorkflowType_Name = Some ''workflow'', WorkflowID = Some ''id'', RunID = Some ''run'',
      State = ''working'', ActivitiesInfo = []\<rparr>"

definition busy_ctx :: FSMContext where
  "busy_ctx =
     \<lparr>WorkflowType_Name = Some ''workflow'', WorkflowID = Some ''id'', RunID = Some ''run'',
      State = ''working'', ActivitiesInfo = [(''activity-1'', ''charge'')]\<rparr>"

definition continue_timer_event :: HistoryEvent where
  "continue_timer_event =
     \<lparr>EventType = Some EventTypeTimerFired, EventID = Some 10,
      TimerFiredEventAttributes = Some \<lparr>TimerID = Some ContinueTimer\<rparr>,
      WorkflowExecutionSignaledEventAttributes = None\<rparr>"

definition started_event :: HistoryEvent where
  "started_event =
     \<lparr>EventType = Some ''WorkflowExecutionStarted'', EventID = Some 10,
      TimerFiredEventAttributes = None, WorkflowExecutionSignaledEventAttributes = None\<rparr>"

definition signal_sent_event :: HistoryEvent where
  "signal_sent_event =
     \<lparr>EventType = Some EventTypeExternalWorkflowExecutionSignaled, EventID = Some 7,
      TimerFiredEventAttributes = None, WorkflowExecutionSignaledEventAttributes = None\<rparr>"

definition signal_failed_event :: HistoryEvent where
  "signal_failed_event =
     \<lparr>EventType = Some EventTypeSignalExternalWorkflowExecutionFailed, EventID = Some 8,
      TimerFiredEventAttributes = None, WorkflowExecutionSignaledEventAttributes = None\<rparr>"

definition continuing_rule :: "(nat, Decision) Decider" where
  "continuing_rule ctx h data = Inr (ContinueOutcome (Suc data) [StartTimer ''5'' ''poll''])"

definition transition_rule :: "(nat, Decision) Decider" where
  "transition_rule ctx h data =
     Inr (TransitionOutcome data ''done'' [ContinueAsNewWorkflowExecution ''done''])"

definition completing_rule :: "(nat, Decision) Decider" where
  "completing_rule ctx h data = Inr (CompleteOutcome data [])"

definition nil_rule :: "(nat, Decision) Decider" where
  "nil_rule ctx h data = Inr NilOutcome"

definition nil_callback :: "(nat, Decision) Decider func_value" where
  "nil_callback =
     \<lparr>rtype = FuncType [''*fsm.FSMContext'', ''swf.HistoryEvent'', ''*main.Order''] [''fsm.Outcome''],
      fn = nil_rule\<rparr>"

section \<open>Properties of the composed decider\<close>

lemma Decide_loop_pass_rule:
  "Decide_loop (pass_rule # ds) ctx h data acc = Decide_loop ds ctx h data acc"
  by (simp add: pass_rule_def)

text \<open>
  Rules that pass or continue hand the rest of the list the data they leave and the
  decisions they carry.
\<close>

lemma Decide_loop_passing:
  "passing pre ctx h data = Some (os, data') \<Longrightarrow>
   Decide_loop (pre @ rest) ctx h data acc =
   Decide_loop rest ctx h data' (acc @ concat (map contributed os))"
proof (induction pre arbitrary: data acc os)
  case Nil
  then show ?case by simp
next
  case (Cons d pre)
  then show ?case
    by (auto split: sum.splits Outcome.splits option.splits)
qed

lemma Decide_loop_ends:
  "d ctx h data = Inr outcome \<Longrightarrow> ends_composition outcome \<Longrightarrow>
   Decide_loop (d # post) ctx h data acc =
   Inr (TransitionOutcome (carried_data outcome data) (Outcome_State outcome)
         (acc @ contributed outcome))"
  by (cases outcome) simp_all

lemma Decide_loop_cong_tail:
  "(\<And>data acc. Decide_loop xs ctx h data acc = Decide_loop ys ctx h data acc) \<Longrightarrow>
   Decide_loop (r # xs) ctx h data acc = Decide_loop (r # ys) ctx h data acc"
  by (simp split: sum.splits Outcome.splits)

text \<open>
  C1 (as amended). When every rule before rule \<open>d\<close> passes or continues and \<open>d\<close> answers
  with a Transition or a Complete outcome, \<open>Decide\<close> returns at once a
  \<open>TransitionOutcome\<close>, for a Complete outcome as for a Transition: it carries the data
  of that outcome, the state that outcome reports (the target state of a Transition)
  and all the decisions accumulated so far followed by the outcome's own. The rules
  after \<open>d\<close> have no part in the result: they are not invoked.
\<close>

theorem composed_ends_with_transition:
  assumes "passing pre ctx h data = Some (os, data')"
    and "d ctx h data' = Inr outcome"
    and "ends_composition outcome"
  shows "Decide (pre @ d # post) ctx h data =
           Inr (TransitionOutcome (carried_data outcome data') (Outcome_State outcome)
                 (concat (map contributed os) @ contributed outcome))
         \<and> Decide (pre @ d # post) ctx h data = Decide (pre @ [d]) ctx h data"
  using assms
  by (simp add: Decide_def EmptyDecisions_def Decide_loop_passing Decide_loop_ends
        del: Decide_loop.simps)

theorem composed_ends_with_transition_witness:
  "passing [pass_rule, continuing_rule] example_ctx started_event 0 =
     Some ([Pass, ContinueOutcome 1 [StartTimer ''5'' ''poll'']], 1)
   \<and> transition_rule example_ctx started_event 1 =
       Inr (TransitionOutcome 1 ''done'' [ContinueAsNewWorkflowExecution ''done''])
   \<and> ends_composition
       (TransitionOutcome (1::nat) ''done'' [ContinueAsNewWorkflowExecution ''done''])
   \<and> Decide ([pass_rule, continuing_rule] @ transition_rule # [nil_rule])
       example_ctx started_event 0 =
       Inr (TransitionOutcome 1 ''done''
             [StartTimer ''5'' ''poll'', ContinueAsNewWorkflowExecution ''done''])"
  using composed_ends_with_transition
    [of "[pass_rule, continuing_rule]" example_ctx started_event 0
        "[Pass, ContinueOutcome 1 [StartTimer ''5'' ''poll'']]" 1 transition_rule
        "TransitionOutcome 1 ''done'' [ContinueAsNewWorkflowExecution ''done'']" "[nil_rule]"]
  by (simp add: pass_rule_def continuing_rule_def transition_rule_def)

text \<open>
  C1 as stated fails: a rule answers with a Complete outcome, and what \<open>Decide\<close> returns
  is not a Complete outcome (it is a \<open>TransitionOutcome\<close>).
\<close>

theorem complete_becomes_transition:
  "returns_Complete (completing_rule example_ctx started_event 0)
   \<and> \<not> returns_Complete (Decide [completing_rule] example_ctx started_event 0)
   \<and> Decide [completing_rule] example_ctx started_event 0 = Inr (TransitionOutcome 0 [] [])"
  by (simp add: returns_Complete_def completing_rule_def Decide_def EmptyDecisions_def)

text \<open>
  What the hypothesis \<open>passing pre ctx h data = Some (os, data')\<close> leaves out: a rule of
  \<open>pre\<close>, reached through rules that pass or continue, that answers with a Transition or
  a Complete outcome, or that returns no outcome (a panic, or nil).
\<close>

lemma passing_None:
  "passing pre ctx h data = None \<Longrightarrow>
   \<exists>xs r ys os dat. pre = xs @ r # ys \<and> passing xs ctx h data = Some (os, dat) \<and>
     (case r ctx h dat of
        Inl p \<Rightarrow> True
      | Inr outcome \<Rightarrow> outcome = NilOutcome \<or> is_Transition outcome \<or> is_Complete outcome)"
proof (induction pre arbitrary: data)
  case Nil
  then show ?case by simp
next
  case (Cons d pre)
  show ?case
  proof (cases "passing [d] ctx h data")
    case None
    then have "case d ctx h data of
        Inl p \<Rightarrow> True
      | Inr outcome \<Rightarrow> outcome = NilOutcome \<or> is_Transition outcome \<or> is_Complete outcome"
      by (auto split: sum.splits Outcome.splits)
    then have "d # pre = [] @ d # pre \<and> passing [] ctx h data = Some ([], data) \<and>
      (case d ctx h data of
        Inl p \<Rightarrow> True
      | Inr outcome \<Rightarrow> outcome = NilOutcome \<or> is_Transition outcome \<or> is_Complete outcome)"
      by simp
    then show ?thesis by blast
  next
    case (Some a)
    then obtain outcome dat where a: "passing [d] ctx h data = Some ([outcome], dat)"
      by (auto split: sum.splits Outcome.splits)
    with Cons.prems have rest: "passing pre ctx h dat = None"
      by (auto split: sum.splits Outcome.splits option.splits)
    from Cons.IH [OF rest] obtain xs r ys os dat' where
      split: "pre = xs @ r # ys" "passing xs ctx h dat = Some (os, dat')"
        "case r ctx h dat' of
           Inl p \<Rightarrow> True
         | Inr outcome \<Rightarrow> outcome = NilOutcome \<or> is_Transition outcome \<or> is_Complete outcome"
      by blast
    from a split(2) have "passing (d # xs) ctx h data = Some (outcome # os, dat')"
      by (auto split: sum.splits Outcome.splits)
    with split(1,3) have "d # pre = (d # xs) @ r # ys \<and>
      passing (d # xs) ctx h data = Some (outcome # os, dat') \<and>
      (case r ctx h dat' of
         Inl p \<Rightarrow> True
       | Inr outcome \<Rightarrow> outcome = NilOutcome \<or> is_Transition outcome \<or> is_Complete outcome)"
      by simp
    then show ?thesis by blast
  qed
qed

text \<open>
  C2. When rule \<open>d\<close> is the first to answer with a Transition or a Complete outcome,
  every rule before it answering Pass or Continue (the two other shapes of an outcome),
  the decisions of the result are the decisions of the outcomes of the rules up to and
  including \<open>d\<close>, in order, and the rules after \<open>d\<close> are not invoked: the result is the
  one of the list that stops at \<open>d\<close>.
\<close>

theorem short_circuit_decisions:
  assumes "passing pre ctx h data = Some (os, data')"
    and "d ctx h data' = Inr outcome"
    and "is_Transition outcome \<or> is_Complete outcome"
  shows "result_decisions (Decide (pre @ d # post) ctx h data) =
           Some (concat (map contributed (os @ [outcome])))
         \<and> Decide (pre @ d # post) ctx h data = Decide (pre @ [d]) ctx h data"
proof -
  from assms(3) have "ends_composition outcome"
    by (cases outcome) simp_all
  with assms(1,2) show ?thesis
    by (simp add: Decide_def EmptyDecisions_def Decide_loop_passing Decide_loop_ends
          result_decisions_def del: Decide_loop.simps)
qed

theorem short_circuit_decisions_witness:
  "passing [continuing_rule, pass_rule, continuing_rule] example_ctx started_event 0 =
     Some ([ContinueOutcome 1 [StartTimer ''5'' ''poll''], Pass,
            ContinueOutcome 2 [StartTimer ''5'' ''poll'']], 2)
   \<and> completing_rule example_ctx started_event 2 = Inr (CompleteOutcome 2 [])
   \<and> (is_Transition (CompleteOutcome (2::nat) ([]::Decision list))
        \<or> is_Complete (CompleteOutcome (2::nat) ([]::Decision list)))
   \<and> result_decisions
       (Decide ([continuing_rule, pass_rule, continuing_rule] @ completing_rule # [nil_rule])
         example_ctx started_event 0) =
       Some [StartTimer ''5'' ''poll'', StartTimer ''5'' ''poll'']"
  using short_circuit_decisions
    [of "[continuing_rule, pass_rule, continuing_rule]" example_ctx started_event 0
        "[ContinueOutcome 1 [StartTimer ''5'' ''poll''], Pass,
          ContinueOutcome 2 [StartTimer ''5'' ''poll'']]" 2 completing_rule
        "CompleteOutcome 2 []" "[nil_rule]"]
  by (simp add: pass_rule_def continuing_rule_def completing_rule_def Decide_def
        EmptyDecisions_def result_decisions_def)

lemma Decide_loop_all_pass:
  "\<forall>d \<in> set ds. d ctx h data = Inr Pass \<Longrightarrow>
   Decide_loop ds ctx h data acc = Inr (ContinueOutcome data acc)"
  by (induction ds) simp_all

text \<open>
  C5. When every rule of a composed decider passes, \<open>Decide\<close> returns a Continue outcome
  with no decisions and the data it was given.
\<close>

theorem all_pass_continue:
  "\<forall>d \<in> set ds. d ctx h data = Inr Pass \<Longrightarrow>
   Decide ds ctx h data = Inr (ContinueOutcome data [])"
  by (simp add: Decide_def EmptyDecisions_def Decide_loop_all_pass)

theorem all_pass_continue_witness:
  "(pass_rule :: (nat, Decision) Decider) example_ctx started_event 4 = Inr Pass
   \<and> Decide [pass_rule, pass_rule :: (nat, Decision) Decider] example_ctx started_event 4 =
       Inr (ContinueOutcome 4 [])"
  using all_pass_continue [of "[pass_rule, pass_rule :: (nat, Decision) Decider]"
      example_ctx started_event 4]
  by (simp add: pass_rule_def)

lemma replace_by_pass_Cons:
  "replace_by_pass S (r # rs) =
     (if 0 \<in> S then pass_rule else r) # replace_by_pass {j. Suc j \<in> S} rs"
  by (simp add: replace_by_pass_def map_upt_Suc del: upt_Suc)

lemma Decide_loop_replace:
  "Decide_loop (replace_by_pass S rules) ctx h data acc =
   Decide_loop (nths rules (- S)) ctx h data acc"
proof (induction rules arbitrary: S data acc)
  case Nil
  then show ?case by (simp add: replace_by_pass_def)
next
  case (Cons r rs)
  have compl: "- {j. Suc j \<in> S} = {j. Suc j \<notin> S}" by auto
  note IH = Cons.IH [of "{j. Suc j \<in> S}", unfolded compl]
  show ?case
  proof (cases "0 \<in> S")
    case True
    then show ?thesis
      using IH
      by (simp add: replace_by_pass_Cons nths_Cons Decide_loop_pass_rule
            del: Decide_loop.simps)
  next
    case False
    have "Decide_loop (r # replace_by_pass {j. Suc j \<in> S} rs) ctx h data acc =
          Decide_loop (r # nths rs {j. Suc j \<notin> S}) ctx h data acc"
      by (rule Decide_loop_cong_tail) (rule IH)
    with False show ?thesis
      by (simp add: replace_by_pass_Cons nths_Cons del: Decide_loop.simps)
  qed
qed

lemma Decide_loop_insert_pass:
  "Decide_loop (xs @ pass_rule # ys) ctx h data acc = Decide_loop (xs @ ys) ctx h data acc"
proof (induction xs arbitrary: data acc)
  case Nil
  show ?case by (simp add: pass_rule_def)
next
  case (Cons x xs)
  have "Decide_loop (x # (xs @ pass_rule # ys)) ctx h data acc =
        Decide_loop (x # (xs @ ys)) ctx h data acc"
    by (rule Decide_loop_cong_tail) (rule Cons.IH)
  then show ?case by (simp del: Decide_loop.simps)
qed

text \<open>
  C6. For any set \<open>S\<close> of positions, the composed decider with the rules at those
  positions replaced by the rule that always passes returns what the composed decider
  without those rules returns; and a rule that always passes, inserted anywhere, changes
  nothing. Both hold for every context, event and data, panics included.
\<close>

theorem pass_transparency:
  "Decide (replace_by_pass S rules) ctx h data = Decide (nths rules (- S)) ctx h data
   \<and> Decide (xs @ pass_rule # ys) ctx h data = Decide (xs @ ys) ctx h data"
  by (simp add: Decide_def Decide_loop_replace Decide_loop_insert_pass del: Decide_loop.simps)

lemma Decide_loop_total:
  "\<forall>d \<in> set ds. \<forall>dat. \<exists>outcome. d ctx h dat = Inr outcome \<and> outcome \<noteq> NilOutcome \<Longrightarrow>
   \<exists>outcome. Decide_loop ds ctx h data acc = Inr outcome \<and> outcome \<noteq> NilOutcome"
proof (induction ds arbitrary: data acc)
  case Nil
  show ?case by simp
next
  case (Cons d ds)
  from Cons.prems have "\<exists>outcome. d ctx h data = Inr outcome \<and> outcome \<noteq> NilOutcome"
    by simp
  then obtain outcome where o: "d ctx h data = Inr outcome" "outcome \<noteq> NilOutcome"
    by blast
  from Cons.prems have rest:
    "\<forall>d \<in> set ds. \<forall>dat. \<exists>outcome. d ctx h dat = Inr outcome \<and> outcome \<noteq> NilOutcome"
    by simp
  show ?case
  proof (cases outcome)
    case NilOutcome
    with o show ?thesis by simp
  next
    case Pass
    with o Cons.IH [OF rest, of data acc] show ?thesis by simp
  next
    case (ContinueOutcome dat decs)
    with o Cons.IH [OF rest, of dat "acc @ decs"] show ?thesis by simp
  qed (use o in simp_all)
qed

text \<open>
  C10. The adapter of \<open>TypedFuncs.Decider\<close> returns what the wrapped callback returns,
  so nil (which is not \<open>Pass\<close>) when the callback returns nil. \<open>Decide\<close> panics with a nil
  dereference when the rules before a rule pass or continue and that rule returns nil,
  whatever rules follow. When every rule returns an outcome that is not nil, on whatever
  data it is given, \<open>Decide\<close> returns an outcome, and that outcome is not nil.
\<close>

theorem nil_outcome_panics:
  "marshalledFunc_decider m f e payload = fn m f e payload
   \<and> (NilOutcome :: ('d, 'c) Outcome) \<noteq> Pass
   \<and> (passing pre ctx h data = Some (os, data') \<longrightarrow> d ctx h data' = Inr NilOutcome \<longrightarrow>
        Decide (pre @ d # post) ctx h data = Inl NilDereference)
   \<and> ((\<forall>d \<in> set ds. \<forall>dat. \<exists>outcome. d ctx h dat = Inr outcome \<and> outcome \<noteq> NilOutcome) \<longrightarrow>
        (\<exists>outcome. Decide ds ctx h data = Inr outcome \<and> outcome \<noteq> NilOutcome))"
proof (intro conjI impI)
  show "marshalledFunc_decider m f e payload = fn m f e payload"
    by (simp add: marshalledFunc_decider_def split: sum.splits)
  show "(NilOutcome :: ('d, 'c) Outcome) \<noteq> Pass"
    by simp
  show "Decide (pre @ d # post) ctx h data = Inl NilDereference"
    if "passing pre ctx h data = Some (os, data')" and "d ctx h data' = Inr NilOutcome"
    using that by (simp add: Decide_def Decide_loop_passing)
  show "\<exists>outcome. Decide ds ctx h data = Inr outcome \<and> outcome \<noteq> NilOutcome"
    if "\<forall>d \<in> set ds. \<forall>dat. \<exists>outcome. d ctx h dat = Inr outcome \<and> outcome \<noteq> NilOutcome"
    using that unfolding Decide_def by (rule Decide_loop_total)
qed

theorem nil_outcome_panics_witness:
  "marshalledFunc_decider nil_callback example_ctx started_event 1 = Inr NilOutcome
   \<and> passing [pass_rule, continuing_rule] example_ctx started_event 0 =
       Some ([Pass, ContinueOutcome 1 [StartTimer ''5'' ''poll'']], 1)
   \<and> Decide ([pass_rule, continuing_rule] @ marshalledFunc_decider nil_callback # [completing_rule])
       example_ctx started_event 0 = Inl NilDereference
   \<and> (\<forall>dat. \<exists>outcome. continuing_rule example_ctx started_event dat = Inr outcome
         \<and> outcome \<noteq> NilOutcome)
   \<and> (\<forall>dat. \<exists>outcome. completing_rule example_ctx started_event dat = Inr outcome
         \<and> outcome \<noteq> NilOutcome)
   \<and> (\<exists>outcome. Decide [continuing_rule, completing_rule] example_ctx started_event 0 =
         Inr outcome \<and> outcome \<noteq> NilOutcome)"
proof -
  have total:
    "\<forall>d \<in> set [continuing_rule, completing_rule].
       \<forall>dat. \<exists>outcome. d example_ctx started_event dat = Inr outcome \<and> outcome \<noteq> NilOutcome"
    by (simp add: continuing_rule_def completing_rule_def)
  have nil: "marshalledFunc_decider nil_callback example_ctx started_event 1 = Inr NilOutcome"
    by (simp add: marshalledFunc_decider_def nil_callback_def nil_rule_def)
  have pre: "passing [pass_rule, continuing_rule] example_ctx started_event 0 =
       Some ([Pass, ContinueOutcome 1 [StartTimer ''5'' ''poll'']], 1)"
    by (simp add: pass_rule_def continuing_rule_def)
  note inst = nil_outcome_panics
    [of nil_callback example_ctx started_event 1 "[pass_rule, continuing_rule]" example_ctx
        started_event 0 "[Pass, ContinueOutcome 1 [StartTimer ''5'' ''poll'']]" 1
        "marshalledFunc_decider nil_callback" "[completing_rule]"
        "[continuing_rule, completing_rule]"]
  from inst total nil pre show ?thesis
    by (simp add: continuing_rule_def completing_rule_def)
qed

section \<open>Properties of the event-matching combinators\<close>

text \<open>
  \<open>OnSignalReceived\<close> does read its signal name: on a signaled event that carries
  another name it passes.
\<close>

lemma OnSignalReceived_other_name:
  "EventType h = Some EventTypeWorkflowExecutionSignaled \<Longrightarrow> signal_name h = Some n \<Longrightarrow>
   n \<noteq> s \<Longrightarrow> OnSignalReceived s ds ctx h data = Inr Pass"
  by (auto simp: OnSignalReceived_def signal_name_def split: option.splits)

text \<open>
  C9. The deciders built by \<open>OnSignalSent\<close> and \<open>OnSignalFailed\<close> do not depend on their
  signal name: two names give the same decider. On an event of the kind
  external-workflow-execution-signaled (respectively
  signal-external-workflow-execution-failed), once \<open>logf\<close> has written its line, the
  decider is the nested composed decider on the same arguments.
\<close>

theorem signal_name_not_consulted:
  "OnSignalSent s ds = OnSignalSent s' ds \<and> OnSignalFailed s ds = OnSignalFailed s' ds
   \<and> (EventType h = Some EventTypeExternalWorkflowExecutionSignaled \<longrightarrow> logf ctx = Inr () \<longrightarrow>
        OnSignalSent s ds ctx h data = NewComposedDecider ds ctx h data)
   \<and> (EventType h = Some EventTypeSignalExternalWorkflowExecutionFailed \<longrightarrow> logf ctx = Inr () \<longrightarrow>
        OnSignalFailed s ds ctx h data = NewComposedDecider ds ctx h data)"
  by (auto simp: OnSignalSent_def OnSignalFailed_def fun_eq_iff)

theorem signal_name_not_consulted_witness:
  "EventType signal_sent_event = Some EventTypeExternalWorkflowExecutionSignaled
   \<and> EventType signal_failed_event = Some EventTypeSignalExternalWorkflowExecutionFailed
   \<and> logf example_ctx = Inr ()
   \<and> OnSignalSent ''order-paid'' [transition_rule] example_ctx signal_sent_event 0 =
       NewComposedDecider [transition_rule] example_ctx signal_sent_event 0
   \<and> OnSignalFailed ''order-paid'' [transition_rule] example_ctx signal_failed_event 0 =
       NewComposedDecider [transition_rule] example_ctx signal_failed_event 0
   \<and> OnSignalSent ''order-paid'' [transition_rule] = OnSignalSent ''refund'' [transition_rule]
   \<and> OnSignalFailed ''order-paid'' [transition_rule] = OnSignalFailed ''refund'' [transition_rule]"
proof -
  note sent = signal_name_not_consulted
      [of "''order-paid''" "[transition_rule]" "''refund''" signal_sent_event example_ctx 0]
  note failed = signal_name_not_consulted
      [of "''order-paid''" "[transition_rule]" "''refund''" signal_failed_event example_ctx 0]
  have e1: "EventType signal_sent_event = Some EventTypeExternalWorkflowExecutionSignaled"
    by (simp add: signal_sent_event_def)
  have e2: "EventType signal_failed_event = Some EventTypeSignalExternalWorkflowExecutionFailed"
    by (simp add: signal_failed_event_def)
  have l: "logf example_ctx = Inr ()"
    by (simp add: example_ctx_def logf_def)
  from sent e1 l have s:
    "OnSignalSent ''order-paid'' [transition_rule] example_ctx signal_sent_event 0 =
       NewComposedDecider [transition_rule] example_ctx signal_sent_event 0"
    by blast
  from failed e2 l have f:
    "OnSignalFailed ''order-paid'' [transition_rule] example_ctx signal_failed_event 0 =
       NewComposedDecider [transition_rule] example_ctx signal_failed_event 0"
    by blast
  from sent have n:
    "OnSignalSent ''order-paid'' [transition_rule] = OnSignalSent ''refund'' [transition_rule]"
    "OnSignalFailed ''order-paid'' [transition_rule] = OnSignalFailed ''refund'' [transition_rule]"
    by blast+
  from e1 e2 l s f n show ?thesis
    by (intro conjI)
qed

section \<open>Properties of ManagedContinuations\<close>

lemma handleContinuationTimer_hit:
  "EventType h = Some EventTypeTimerFired \<Longrightarrow> timer_id h = Some ContinueTimer \<Longrightarrow>
   handleContinuationTimer R ctx h data =
     Inr (ContinueOutcome data [continuation_decision R ctx])"
  by (auto simp: handleContinuationTimer_def timer_id_def continuation_decision_def Stay_def
        EmptyDecisions_def ContinueWorkflowDecision_def split: option.splits)

lemma handleContinuationSignal_hit:
  "EventType h = Some EventTypeWorkflowExecutionSignaled \<Longrightarrow>
   signal_name h = Some ContinueSignal \<Longrightarrow>
   handleContinuationSignal R ctx h data =
     Inr (ContinueOutcome data [continuation_decision R ctx])"
  by (auto simp: handleContinuationSignal_def signal_name_def continuation_decision_def Stay_def
        EmptyDecisions_def ContinueWorkflowDecision_def split: option.splits)

lemma handleContinuationTimer_miss:
  "well_formed h \<Longrightarrow>
   \<not> (EventType h = Some EventTypeTimerFired \<and> timer_id h = Some ContinueTimer) \<Longrightarrow>
   handleContinuationTimer R ctx h data = Inr Pass"
  by (auto simp: handleContinuationTimer_def timer_id_def well_formed_def split: option.splits)

lemma handleContinuationSignal_miss:
  "well_formed h \<Longrightarrow>
   \<not> (EventType h = Some EventTypeWorkflowExecutionSignaled \<and> signal_name h = Some ContinueSignal) \<Longrightarrow>
   handleContinuationSignal R ctx h data = Inr Pass"
  by (auto simp: handleContinuationSignal_def signal_name_def well_formed_def split: option.splits)

lemma handleContinuationSignal_timer_event:
  "EventType h = Some EventTypeTimerFired \<Longrightarrow> handleContinuationSignal R ctx h data = Inr Pass"
  by (simp add: handleContinuationSignal_def EventTypeTimerFired_def
        EventTypeWorkflowExecutionSignaled_def)

lemma signalContinuationWhenHistoryLarge_eq:
  "EventID h = Some N \<Longrightarrow>
   signalContinuationWhenHistoryLarge T ctx h data =
     (if N > T then Inr (ContinueOutcome data [self_signal ctx]) else Inr Pass)"
  by (simp add: signalContinuationWhenHistoryLarge_def self_signal_def Stay_def EmptyDecisions_def)

text \<open>
  What \<open>ManagedContinuations\<close> returns on a well-formed event with identifier \<open>N\<close>: every
  rule is reached, since each passes or answers with the Continue outcome of
  \<open>ctx.Stay\<close>; the decisions are those of the rules that do not pass, in rule order.
\<close>

lemma ManagedContinuations_eq:
  assumes "well_formed h" and "EventID h = Some N"
  shows "ManagedContinuations T R ctx h data =
           Inr (ContinueOutcome data
                 ((if continuation_event h then [continuation_decision R ctx] else []) @
                  (if N > T then [self_signal ctx] else [])))"
proof (cases "EventType h = Some EventTypeTimerFired \<and> timer_id h = Some ContinueTimer")
  case True
  then have "continuation_event h" by (simp add: continuation_event_def)
  with True show ?thesis
    by (simp add: ManagedContinuations_def NewComposedDecider_def Decide_def EmptyDecisions_def
          handleContinuationTimer_hit handleContinuationSignal_timer_event
          signalContinuationWhenHistoryLarge_eq [OF assms(2)])
next
  case notimer: False
  note t = handleContinuationTimer_miss [OF assms(1) notimer]
  show ?thesis
  proof (cases "EventType h = Some EventTypeWorkflowExecutionSignaled
                \<and> signal_name h = Some ContinueSignal")
    case True
    then have "continuation_event h" by (simp add: continuation_event_def)
    with True show ?thesis
      by (simp add: ManagedContinuations_def NewComposedDecider_def Decide_def EmptyDecisions_def
            t handleContinuationSignal_hit signalContinuationWhenHistoryLarge_eq [OF assms(2)])
  next
    case False
    with notimer have "\<not> continuation_event h" by (simp add: continuation_event_def)
    then show ?thesis
      by (simp add: ManagedContinuations_def NewComposedDecider_def Decide_def EmptyDecisions_def
            t handleContinuationSignal_miss [OF assms(1) False]
            signalContinuationWhenHistoryLarge_eq [OF assms(2)])
  qed
qed

text \<open>
  C3 (as amended). On a timer-fired event for the reserved continue timer, with
  identifier \<open>N\<close>, \<open>ManagedContinuations\<close> returns a Continue outcome with the data
  unchanged, so it stays in the current state. Its first decision is the one of the
  continuation: continue-as-new with the current state name when the registry of
  outstanding activities is empty, and a start of the reserved continue timer with the
  retry delay \<open>timerRetrySeconds\<close> otherwise. That decision is the only one when \<open>N\<close> does
  not exceed the history size; when \<open>N\<close> exceeds it, the history-size rule runs as well
  and its decision, the signal of the same execution with the reserved continue signal,
  follows.
\<close>

theorem continuation_timer_decisions:
  assumes "EventType h = Some EventTypeTimerFired" and "timer_id h = Some ContinueTimer"
    and "EventID h = Some N"
  shows "ManagedContinuations historySize timerRetrySeconds ctx h data =
           Inr (ContinueOutcome data
                 ((if length (ActivitiesInfo ctx) = 0 then ContinueWorkflowDecision ctx (State ctx)
                   else StartTimer (Itoa timerRetrySeconds) ContinueTimer) #
                  (if N > historySize then [self_signal ctx] else [])))
         \<and> stays (ManagedContinuations historySize timerRetrySeconds ctx h data)"
  by (simp add: ManagedContinuations_def NewComposedDecider_def Decide_def EmptyDecisions_def
        handleContinuationTimer_hit [OF assms(1,2)] handleContinuationSignal_timer_event [OF assms(1)]
        signalContinuationWhenHistoryLarge_eq [OF assms(3)] continuation_decision_def
        ContinueWorkflowDecision_def)

theorem continuation_timer_decisions_witness:
  "EventType continue_timer_event = Some EventTypeTimerFired
   \<and> timer_id continue_timer_event = Some ContinueTimer
   \<and> EventID continue_timer_event = Some 10
   \<and> ManagedContinuations 10 30 example_ctx continue_timer_event (0::nat) =
       Inr (ContinueOutcome 0 [ContinueAsNewWorkflowExecution ''working''])
   \<and> ManagedContinuations 10 30 busy_ctx continue_timer_event (0::nat) =
       Inr (ContinueOutcome 0 [StartTimer ''30'' ''FSM.ContinueWorkflow''])
   \<and> ManagedContinuations 9 30 busy_ctx continue_timer_event (0::nat) =
       Inr (ContinueOutcome 0
             [StartTimer ''30'' ''FSM.ContinueWorkflow'',
              SignalExternalWorkflowExecution ''FSM.ContinueWorkflow'' (Some ''id'') (Some ''run'')])
   \<and> stays (ManagedContinuations 9 30 busy_ctx continue_timer_event (0::nat))"
proof -
  have e: "EventType continue_timer_event = Some EventTypeTimerFired"
    by (simp add: continue_timer_event_def)
  have t: "timer_id continue_timer_event = Some ContinueTimer"
    by (simp add: continue_timer_event_def timer_id_def)
  have n: "EventID continue_timer_event = Some 10"
    by (simp add: continue_timer_event_def)
  have i: "Itoa 30 = ''30''"
    by (simp add: Itoa_def nat_digits.simps)
  note idle = continuation_timer_decisions [OF e t n, of 10 30 example_ctx "0::nat"]
  note busy = continuation_timer_decisions [OF e t n, of 10 30 busy_ctx "0::nat"]
  note large = continuation_timer_decisions [OF e t n, of 9 30 busy_ctx "0::nat"]
  from idle [THEN conjunct1] have r1:
    "ManagedContinuations 10 30 example_ctx continue_timer_event (0::nat) =
       Inr (ContinueOutcome 0 [ContinueAsNewWorkflowExecution ''working''])"
    by (simp add: example_ctx_def ContinueWorkflowDecision_def)
  from busy [THEN conjunct1] i have r2:
    "ManagedContinuations 10 30 busy_ctx continue_timer_event (0::nat) =
       Inr (ContinueOutcome 0 [StartTimer ''30'' ''FSM.ContinueWorkflow''])"
    by (simp add: busy_ctx_def ContinueTimer_def)
  from large [THEN conjunct1] i have r3:
    "ManagedContinuations 9 30 busy_ctx continue_timer_event (0::nat) =
       Inr (ContinueOutcome 0
             [StartTimer ''30'' ''FSM.ContinueWorkflow'',
              SignalExternalWorkflowExecution ''FSM.ContinueWorkflow'' (Some ''id'') (Some ''run'')])"
    by (simp add: busy_ctx_def ContinueTimer_def self_signal_def ContinueSignal_def)
  from e t n r1 r2 r3 large [THEN conjunct2] show ?thesis
    by (intro conjI)
qed

text \<open>
  C3 as stated fails: the reserved continue timer fires in an event with identifier 10,
  above the history size 5, with no activity outstanding, and \<open>ManagedContinuations\<close>
  emits two decisions, the continue-as-new and the signal of the history-size rule.
\<close>

theorem continuation_timer_two_decisions:
  "EventType continue_timer_event = Some EventTypeTimerFired
   \<and> timer_id continue_timer_event = Some ContinueTimer
   \<and> ActivitiesInfo example_ctx = []
   \<and> result_decisions (ManagedContinuations 5 30 example_ctx continue_timer_event (0::nat)) =
       Some [ContinueAsNewWorkflowExecution ''working'',
             SignalExternalWorkflowExecution ''FSM.ContinueWorkflow'' (Some ''id'') (Some ''run'')]"
  by (simp add: ManagedContinuations_def NewComposedDecider_def Decide_def EmptyDecisions_def
        handleContinuationTimer_def handleContinuationSignal_def
        signalContinuationWhenHistoryLarge_def continue_timer_event_def example_ctx_def Stay_def
        ContinueWorkflowDecision_def result_decisions_def timer_id_def EventTypeTimerFired_def
        EventTypeWorkflowExecutionSignaled_def ContinueSignal_def ContinueTimer_def)

text \<open>
  C4. For every well-formed event with identifier \<open>N\<close> and threshold \<open>T\<close>,
  \<open>ManagedContinuations\<close> emits the decision that signals the same execution (its own
  workflow id and run id) with the reserved continue signal if and only if \<open>N > T\<close>. The
  history-size rule answers with that one decision when \<open>N > T\<close> and passes,
  contributing none, when \<open>N \<le> T\<close>; the outcome of the three rules is a Continue outcome
  whose decisions are the decision of a continuation, on a continuation event, followed
  by the signal when \<open>N > T\<close>.
\<close>

theorem history_threshold_signal:
  assumes "well_formed h" and "EventID h = Some N"
  shows "(emits (self_signal ctx) (ManagedContinuations T R ctx h data) \<longleftrightarrow> N > T)
         \<and> signalContinuationWhenHistoryLarge T ctx h data =
             (if N > T then Inr (Stay ctx data [self_signal ctx]) else Inr Pass)
         \<and> ManagedContinuations T R ctx h data =
             Inr (ContinueOutcome data
                   ((if continuation_event h then [continuation_decision R ctx] else []) @
                    (if N > T then [self_signal ctx] else [])))"
  by (auto simp: emits_def continuation_decision_def self_signal_def Stay_def
        ManagedContinuations_eq [OF assms] signalContinuationWhenHistoryLarge_eq [OF assms(2)])

theorem history_threshold_signal_witness:
  "well_formed started_event \<and> EventID started_event = Some 10
   \<and> well_formed continue_timer_event \<and> EventID continue_timer_event = Some 10
   \<and> emits (self_signal example_ctx) (ManagedContinuations 9 30 example_ctx started_event (0::nat))
   \<and> \<not> emits (self_signal example_ctx)
         (ManagedContinuations 10 30 example_ctx started_event (0::nat))
   \<and> emits (self_signal example_ctx)
         (ManagedContinuations 5 30 example_ctx continue_timer_event (0::nat))
   \<and> \<not> emits (self_signal example_ctx)
         (ManagedContinuations 10 30 example_ctx continue_timer_event (0::nat))
   \<and> signalContinuationWhenHistoryLarge 10 example_ctx started_event (0::nat) = Inr Pass"
proof -
  have w: "well_formed started_event"
    by (simp add: well_formed_def started_event_def EventTypeTimerFired_def
          EventTypeWorkflowExecutionSignaled_def)
  have n: "EventID started_event = Some 10"
    by (simp add: started_event_def)
  have w': "well_formed continue_timer_event"
    by (simp add: well_formed_def continue_timer_event_def timer_id_def EventTypeTimerFired_def
          EventTypeWorkflowExecutionSignaled_def)
  have n': "EventID continue_timer_event = Some 10"
    by (simp add: continue_timer_event_def)
  note above = history_threshold_signal [OF w n, of example_ctx 9 30 "0::nat"]
  note at = history_threshold_signal [OF w n, of example_ctx 10 30 "0::nat"]
  note above' = history_threshold_signal [OF w' n', of example_ctx 5 30 "0::nat"]
  note at' = history_threshold_signal [OF w' n', of example_ctx 10 30 "0::nat"]
  from above [THEN conjunct1] have e1:
    "emits (self_signal example_ctx) (ManagedContinuations 9 30 example_ctx started_event (0::nat))"
    by simp
  from at [THEN conjunct1] have e2:
    "\<not> emits (self_signal example_ctx)
         (ManagedContinuations 10 30 example_ctx started_event (0::nat))"
    by simp
  from above' [THEN conjunct1] have e3:
    "emits (self_signal example_ctx)
       (ManagedContinuations 5 30 example_ctx continue_timer_event (0::nat))"
    by simp
  from at' [THEN conjunct1] have e4:
    "\<not> emits (self_signal example_ctx)
         (ManagedContinuations 10 30 example_ctx continue_timer_event (0::nat))"
    by simp
  from at [THEN conjunct2, THEN conjunct1] have p:
    "signalContinuationWhenHistoryLarge 10 example_ctx started_event (0::nat) = Inr Pass"
    by simp
  from w n w' n' e1 e2 e3 e4 p show ?thesis
    by (intro conjI)
qed

section \<open>Properties of the typed adapters\<close>

lemma check_types_defined:
  "length ins = length ts \<Longrightarrow> check_types i ins ts \<noteq> None"
  by (induction i ins ts rule: check_types.induct) simp_all

lemma check_types_equal:
  "length ins = length ts \<Longrightarrow> (check_types i ins ts = Some None) = (ins = ts)"
  by (induction i ins ts rule: check_types.induct) auto

text \<open>
  \<open>typeCheck\<close> returns normally exactly on a func whose parameter and result types are
  the expected ones.
\<close>

lemma typeCheck_ok:
  "(typeCheck t ins outs = None) = (t = Some (FuncType ins outs))"
proof (cases t)
  case None
  then show ?thesis by (simp add: typeCheck_def)
next
  case (Some ty)
  show ?thesis
  proof (cases ty)
    case (OtherKind k)
    with Some show ?thesis by (simp add: typeCheck_def)
  next
    case (FuncType tin tout)
    show ?thesis
    proof (cases "length ins = length tin")
      case False
      with Some FuncType show ?thesis by (auto simp: typeCheck_def)
    next
      case lin: True
      show ?thesis
      proof (cases "ins = tin")
        case False
        with lin have "check_types 0 ins tin \<noteq> Some None" "check_types 0 ins tin \<noteq> None"
          by (simp_all add: check_types_equal check_types_defined)
        with Some FuncType lin False show ?thesis
          by (auto simp: typeCheck_def split: option.splits)
      next
        case True
        then have c: "check_types 0 ins tin = Some None"
          by (simp add: check_types_equal)
        show ?thesis
        proof (cases "length outs = length tout")
          case False
          with Some FuncType True c show ?thesis by (auto simp: typeCheck_def)
        next
          case lout: True
          then have "check_types 0 outs tout \<noteq> None"
            "(check_types 0 outs tout = Some None) = (outs = tout)"
            by (simp_all add: check_types_equal check_types_defined)
          with Some FuncType True c lout show ?thesis
            by (auto simp: typeCheck_def split: option.splits)
        qed
      qed
    qed
  qed
qed

lemma construct_ok:
  "isl (construct t callback ins outs adapter) = (\<not> matches_shape t callback ins outs)"
proof (cases "typed t")
  case None
  then show ?thesis by (simp add: construct_def typeArg_def matches_shape_def)
next
  case (Some ta)
  show ?thesis
  proof (cases callback)
    case None
    with Some show ?thesis
      by (simp add: construct_def typeArg_def matches_shape_def typeCheck_def)
  next
    case v: (Some v)
    show ?thesis
    proof (cases "typeCheck (Some (rtype v)) (ins ta) outs")
      case None
      with Some v show ?thesis
        using typeCheck_ok [of "Some (rtype v)" "ins ta" outs]
        by (simp add: construct_def typeArg_def matches_shape_def)
    next
      case p: (Some p)
      with Some v show ?thesis
        using typeCheck_ok [of "Some (rtype v)" "ins ta" outs]
        by (simp add: construct_def typeArg_def matches_shape_def)
    qed
  qed
qed

text \<open>
  C7. Each of the five constructors of \<open>TypedFuncs\<close> panics, at construction, exactly
  when the callback does not match the expected shape: when it is nil or not a func,
  when its number of parameters, one of its parameter types (the payload type among
  them), its number of results or its result type differs from the expected one.
  A callback of the matching shape yields the adapter. So there is no adapter, and no
  first invocation, for a callback of another shape.
\<close>

theorem typed_adapter_rejection:
  "isl (TypedFuncs_Decider t c1) = (\<not> matches_shape t c1 decider_ins [''fsm.Outcome''])
   \<and> isl (TypedFuncs_DecisionFunc t c2) = (\<not> matches_shape t c2 decider_ins [''swf.Decision''])
   \<and> isl (TypedFuncs_MultiDecisionFunc t c3) =
       (\<not> matches_shape t c3 decider_ins [''[]swf.Decision''])
   \<and> isl (TypedFuncs_StateFunc t c4) = (\<not> matches_shape t c4 decider_ins [])
   \<and> isl (TypedFuncs_PredicateFunc t c5) = (\<not> matches_shape t c5 (\<lambda>ta. [ta]) [''bool''])"
  by (simp add: TypedFuncs_Decider_def TypedFuncs_DecisionFunc_def TypedFuncs_MultiDecisionFunc_def
        TypedFuncs_StateFunc_def TypedFuncs_PredicateFunc_def construct_ok)

text \<open>
  The panics of some callbacks of another shape, for the payload type \<open>*main.Order\<close>: a
  value that is not a func, a func with one parameter too few, with another payload type,
  with a second result, with another result type; and the nil callback.
\<close>

lemma typed_adapter_panics:
  "TypedFuncs_Decider (Typed (Some ''*main.Order''))
     (Some \<lparr>rtype = OtherKind ''struct'', fn = nil_rule\<rparr>) = Inl (KindNotFunc ''struct'')"
  "TypedFuncs_Decider (Typed (Some ''*main.Order''))
     (Some \<lparr>rtype = FuncType [''*fsm.FSMContext'', ''swf.HistoryEvent''] [''fsm.Outcome''],
            fn = nil_rule\<rparr>) = Inl (InputArity 2 3)"
  "TypedFuncs_Decider (Typed (Some ''*main.Order''))
     (Some \<lparr>rtype = FuncType [''*fsm.FSMContext'', ''swf.HistoryEvent'', ''*main.Cart'']
                     [''fsm.Outcome''],
            fn = nil_rule\<rparr>) = Inl (ArgumentType 2 ''*main.Cart'' ''*main.Order'')"
  "TypedFuncs_Decider (Typed (Some ''*main.Order''))
     (Some \<lparr>rtype = FuncType [''*fsm.FSMContext'', ''swf.HistoryEvent'', ''*main.Order'']
                     [''fsm.Outcome'', ''error''],
            fn = nil_rule\<rparr>) = Inl (ReturnArity 2 1)"
  "TypedFuncs_Decider (Typed (Some ''*main.Order''))
     (Some \<lparr>rtype = FuncType [''*fsm.FSMContext'', ''swf.HistoryEvent'', ''*main.Order'']
                     [''swf.Decision''],
            fn = nil_rule\<rparr>) = Inl (ReturnType 0 ''swf.Decision'' ''fsm.Outcome'')"
  "TypedFuncs_Decider (Typed (Some ''*main.Order'')) (None :: (nat, Decision) Decider func_value option) =
     Inl NilDereference"
  "TypedFuncs_Decider (Typed (Some ''*main.Order'')) (Some nil_callback) =
     Inr (marshalledFunc_decider nil_callback)"
  by (simp_all add: TypedFuncs_Decider_def construct_def typeArg_def Typed_def typeCheck_def
        decider_ins_def nil_callback_def)

section \<open>Properties of the inline dispatcher\<close>

lemma below_totalTasks:
  assumes "k < 999"
  shows "(of_nat k :: 32 word) + 1 \<noteq> totalTasks"
proof -
  have "unat (of_nat (Suc k) :: 32 word) = Suc k"
    using assms by (simp add: unat_of_nat del: of_nat_Suc)
  moreover have "unat totalTasks = 1000"
    by (simp add: totalTasks_def)
  ultimately have "(of_nat (Suc k) :: 32 word) \<noteq> totalTasks"
    using assms by (auto simp del: of_nat_Suc)
  then show ?thesis by (simp add: add.commute)
qed

lemma test_handler_below:
  "k < 999 \<Longrightarrow> tasksHandled s = of_nat k \<Longrightarrow>
   test_handler d s = Some (s\<lparr>tasksHandled := of_nat k + 1\<rparr>)"
  using below_totalTasks [of k]
  by (simp add: test_handler_def Let_def)

lemma inline_dispatch:
  "test_handler () (program w) = Some s \<Longrightarrow>
   CallingGoroutineDispatcher_DispatchTask () test_handler w =
     Some \<lparr>invocations = Suc (invocations w), program = s\<rparr>"
  by (simp add: CallingGoroutineDispatcher_DispatchTask_def call_handler_def)

text \<open>
  Below the last task, \<open>n\<close> dispatches on the inline dispatcher leave \<open>n\<close> more handler
  invocations completed, and the counter \<open>n\<close> higher.
\<close>

lemma inline_loop_below:
  "k + n < 1000 \<Longrightarrow> tasksHandled (program w) = of_nat k \<Longrightarrow>
   dispatch_loop CallingGoroutineDispatcher_DispatchTask n w =
     Some \<lparr>invocations = invocations w + n,
           program = (program w)\<lparr>tasksHandled := of_nat (k + n)\<rparr>\<rparr>"
proof (induction n arbitrary: k w)
  case 0
  then show ?case by simp
next
  case (Suc n)
  let ?w = "\<lparr>invocations = Suc (invocations w),
             program = (program w)\<lparr>tasksHandled := of_nat k + 1\<rparr>\<rparr>"
  from Suc.prems have "test_handler () (program w) = Some (program ?w)"
    by (simp add: test_handler_below)
  then have step: "CallingGoroutineDispatcher_DispatchTask () test_handler w = Some ?w"
    by (simp add: inline_dispatch)
  have "dispatch_loop CallingGoroutineDispatcher_DispatchTask n ?w =
        Some \<lparr>invocations = invocations ?w + n,
              program = (program ?w)\<lparr>tasksHandled := of_nat (Suc k + n)\<rparr>\<rparr>"
    using Suc.prems by (intro Suc.IH) (simp_all add: add.commute)
  then show ?case
    by (simp add: step add.commute)
qed

lemma dispatch_loop_add:
  "dispatch_loop D (m + n) w =
     (case dispatch_loop D m w of None \<Rightarrow> None | Some w' \<Rightarrow> dispatch_loop D n w')"
  by (induction m arbitrary: w) (simp_all split: option.splits)

lemma inline_test_passes:
  "testDispatcher CallingGoroutineDispatcher_DispatchTask =
     Some \<lparr>invocations = 1000, program = \<lparr>tasksHandled = 1000, done_chan = 1\<rparr>\<rparr>"
proof -
  let ?w0 = "\<lparr>invocations = 0, program = \<lparr>tasksHandled = 0, done_chan = 0\<rparr>\<rparr>"
  let ?w1 = "\<lparr>invocations = 999, program = \<lparr>tasksHandled = 999, done_chan = 0\<rparr>\<rparr>"
  have first: "dispatch_loop CallingGoroutineDispatcher_DispatchTask 999 ?w0 = Some ?w1"
    using inline_loop_below [of 0 999 ?w0] by simp
  have "test_handler () (program ?w1) = Some \<lparr>tasksHandled = 1000, done_chan = 1\<rparr>"
    by (simp add: test_handler_def totalTasks_def Let_def)
  then have last: "CallingGoroutineDispatcher_DispatchTask () test_handler ?w1 =
      Some \<lparr>invocations = 1000, program = \<lparr>tasksHandled = 1000, done_chan = 1\<rparr>\<rparr>"
    using inline_dispatch [of ?w1] by simp
  have "dispatch_loop CallingGoroutineDispatcher_DispatchTask (999 + 1) ?w0 =
        Some \<lparr>invocations = 1000, program = \<lparr>tasksHandled = 1000, done_chan = 1\<rparr>\<rparr>"
    unfolding dispatch_loop_add first by (simp add: last)
  moreover have "unat totalTasks = 999 + 1" by (simp add: totalTasks_def)
  ultimately show ?thesis
    unfolding testDispatcher_def by (simp only:)
qed

text \<open>
  C8. For every task and handler, \<open>DispatchTask\<close> of the inline dispatcher returns
  exactly when the handler returns: with the state the handler leaves and exactly one
  more completed invocation of the handler; and it does not return when the handler
  does not. In \<open>testDispatcher\<close> the thousand dispatches therefore leave a thousand
  completed invocations and the message in \<open>done\<close> before the test waits for it.
\<close>

theorem inline_dispatch_synchronous:
  "(handler task (program w) = Some s \<longrightarrow>
      CallingGoroutineDispatcher_DispatchTask task handler w =
        Some \<lparr>invocations = Suc (invocations w), program = s\<rparr>)
   \<and> (handler task (program w) = None \<longrightarrow>
        CallingGoroutineDispatcher_DispatchTask task handler w = None)
   \<and> testDispatcher CallingGoroutineDispatcher_DispatchTask =
       Some \<lparr>invocations = 1000,
             program = \<lparr>tasksHandled = 1000, done_chan = 1\<rparr>\<rparr>"
  by (simp add: CallingGoroutineDispatcher_DispatchTask_def call_handler_def inline_test_passes)

theorem inline_dispatch_synchronous_witness:
  "test_handler () \<lparr>tasksHandled = 41, done_chan = 0\<rparr> = Some \<lparr>tasksHandled = 42, done_chan = 0\<rparr>
   \<and> CallingGoroutineDispatcher_DispatchTask () test_handler
       \<lparr>invocations = 41, program = \<lparr>tasksHandled = 41, done_chan = 0\<rparr>\<rparr> =
       Some \<lparr>invocations = 42, program = \<lparr>tasksHandled = 42, done_chan = 0\<rparr>\<rparr>
   \<and> test_handler () \<lparr>tasksHandled = 999, done_chan = 1\<rparr> = None
   \<and> CallingGoroutineDispatcher_DispatchTask () test_handler
       \<lparr>invocations = 999, program = \<lparr>tasksHandled = 999, done_chan = 1\<rparr>\<rparr> = None"
proof -
  have a: "test_handler () \<lparr>tasksHandled = 41, done_chan = 0\<rparr> =
      Some \<lparr>tasksHandled = 42, done_chan = 0\<rparr>"
    by (simp add: test_handler_def totalTasks_def Let_def)
  have b: "test_handler () \<lparr>tasksHandled = 999, done_chan = 1\<rparr> = None"
    by (simp add: test_handler_def totalTasks_def Let_def)
  from a b
    inline_dispatch_synchronous
      [of test_handler "()"
          "\<lparr>invocations = 41, program = \<lparr>tasksHandled = 41, done_chan = 0\<rparr>\<rparr>"
          "\<lparr>tasksHandled = 42, done_chan = 0\<rparr>"]
    inline_dispatch_synchronous
      [of test_handler "()"
          "\<lparr>invocations = 999, program = \<lparr>tasksHandled = 999, done_chan = 1\<rparr>\<rparr>"
          "\<lparr>tasksHandled = 42, done_chan = 0\<rparr>"]
  show ?thesis by simp
qed

end
